theory Spec2Isabelle
  imports Main "HOL-Library.Word"
begin

section \<open>The compression shims of wax (wax\_compression\_shims.c)\<close>

text \<open>
  The four entry points of \<^verbatim>\<open>wax_compression_shims.c\<close> validate their arguments and
  pass them on to LZ4 and zlib. The model follows the C text statement by statement.

  \<^item> \<^verbatim>\<open>size_t\<close>, \<^verbatim>\<open>uLong\<close> and \<^verbatim>\<open>uLongf\<close> are 64-bit words (an LP64 platform), \<^verbatim>\<open>int\<close> and
    \<^verbatim>\<open>int32_t\<close> are 32-bit words read as two's complement, \<^verbatim>\<open>uint8_t\<close> is an 8-bit word.
  \<^item> A pointer is an option: \<open>None\<close> is \<^verbatim>\<open>NULL\<close>, \<open>Some x\<close> points to the object \<open>x\<close>
    (the bytes of a buffer, or the \<^verbatim>\<open>size_t\<close> a length pointer refers to). The objects
    behind different pointers are distinct.
  \<^item> The functions of \<^verbatim>\<open>lz4.h\<close> and \<^verbatim>\<open>zlib.h\<close> and the two zlib constants the shims use
    are not part of the repository: they are the fields of a record \<open>ext_libs\<close>, and every
    shim takes that record as its first argument. A library function that writes through a
    pointer returns the new contents of the object next to its return value.
  \<^item> Every shim returns its return code, the contents of the output buffer and of the
    length object after the call, and the list of the library calls it made, in order.
\<close>

type_synonym byte = "8 word"
type_synonym int32 = "32 word"
type_synonym size_t = "64 word"
type_synonym uLong = "64 word"

record ext_libs =
  LZ4_compressBound :: "int32 \<Rightarrow> int32"
  LZ4_compress_default :: "byte list \<Rightarrow> byte list \<Rightarrow> int32 \<Rightarrow> int32 \<Rightarrow> int32 \<times> byte list"
  LZ4_decompress_safe :: "byte list \<Rightarrow> byte list \<Rightarrow> int32 \<Rightarrow> int32 \<Rightarrow> int32 \<times> byte list"
  compress2 :: "byte list \<Rightarrow> uLong \<Rightarrow> byte list \<Rightarrow> uLong \<Rightarrow> int32 \<Rightarrow> int32 \<times> byte list \<times> uLong"
  uncompress :: "byte list \<Rightarrow> uLong \<Rightarrow> byte list \<Rightarrow> uLong \<Rightarrow> int32 \<times> byte list \<times> uLong"
  Z_OK :: int32
  Z_DEFAULT_COMPRESSION :: int32

text \<open>
  Argument order is the one of the C prototypes:
  \<open>LZ4_compress_default src dst srcSize dstCapacity\<close>,
  \<open>LZ4_decompress_safe src dst compressedSize dstCapacity\<close>,
  \<open>compress2 dest destLen source sourceLen level\<close> and
  \<open>uncompress dest destLen source sourceLen\<close>; the zlib functions return the status, the
  destination bytes and the value left in \<^verbatim>\<open>*destLen\<close>.
\<close>

datatype lib_call =
    Call_LZ4_compressBound int32
  | Call_LZ4_compress_default int32 int32
  | Call_LZ4_decompress_safe int32 int32
  | Call_compress2 uLong uLong int32
  | Call_uncompress uLong uLong

record shim_result =
  rc :: int32
  dst_mem :: "byte list option"
  calls :: "lib_call list"

record shim_len_result = shim_result +
  len_mem :: "size_t option"

definition INT32_MAX :: size_t where
  "INT32_MAX = 0x7FFFFFFF"

definition UINT32_MAX :: size_t where
  "UINT32_MAX = 0xFFFFFFFF"

definition wax_lz4_compress ::
  "ext_libs \<Rightarrow> byte list option \<Rightarrow> size_t \<Rightarrow> byte list option \<Rightarrow> size_t \<Rightarrow> size_t option
    \<Rightarrow> shim_len_result" where
  "wax_lz4_compress L src src_len dst dst_cap out_len =
    (if src = None \<or> dst = None \<or> out_len = None then
       \<lparr>rc = - 1, dst_mem = dst, calls = [], len_mem = out_len\<rparr>
     else if src_len > INT32_MAX \<or> dst_cap > INT32_MAX then
       \<lparr>rc = - 2, dst_mem = dst, calls = [], len_mem = out_len\<rparr>
     else
       let bound = LZ4_compressBound L (ucast src_len);
           c1 = [Call_LZ4_compressBound (ucast src_len)]
       in
       if bound \<le>s 0 then
         \<lparr>rc = - 3, dst_mem = dst, calls = c1, len_mem = out_len\<rparr>
       else if (scast bound :: size_t) > dst_cap then
         \<lparr>rc = - 4, dst_mem = dst, calls = c1, len_mem = out_len\<rparr>
       else
         let (written, d') =
               LZ4_compress_default L (the src) (the dst) (ucast src_len) (ucast dst_cap);
             c2 = c1 @ [Call_LZ4_compress_default (ucast src_len) (ucast dst_cap)]
         in
         if written \<le>s 0 then
           \<lparr>rc = - 5, dst_mem = Some d', calls = c2, len_mem = out_len\<rparr>
         else
           \<lparr>rc = 0, dst_mem = Some d', calls = c2, len_mem = Some (scast written)\<rparr>)"

definition wax_lz4_decompress ::
  "ext_libs \<Rightarrow> byte list option \<Rightarrow> size_t \<Rightarrow> byte list option \<Rightarrow> size_t \<Rightarrow> shim_result" where
  "wax_lz4_decompress L src src_len dst dst_len =
    (if src = None \<or> dst = None then
       \<lparr>rc = - 1, dst_mem = dst, calls = []\<rparr>
     else if src_len > INT32_MAX \<or> dst_len > INT32_MAX then
       \<lparr>rc = - 2, dst_mem = dst, calls = []\<rparr>
     else
       let (written, d') =
             LZ4_decompress_safe L (the src) (the dst) (ucast src_len) (ucast dst_len);
           c1 = [Call_LZ4_decompress_safe (ucast src_len) (ucast dst_len)]
       in
       if written <s 0 then
         \<lparr>rc = - 3, dst_mem = Some d', calls = c1\<rparr>
       else if (scast written :: size_t) \<noteq> dst_len then
         \<lparr>rc = - 4, dst_mem = Some d', calls = c1\<rparr>
       else
         \<lparr>rc = 0, dst_mem = Some d', calls = c1\<rparr>)"

definition wax_deflate_compress ::
  "ext_libs \<Rightarrow> byte list option \<Rightarrow> size_t \<Rightarrow> byte list option \<Rightarrow> size_t option
    \<Rightarrow> shim_len_result" where
  "wax_deflate_compress L src src_len dst inout_dst_len =
    (if src = None \<or> dst = None \<or> inout_dst_len = None then
       \<lparr>rc = - 1, dst_mem = dst, calls = [], len_mem = inout_dst_len\<rparr>
     else if src_len > UINT32_MAX \<or> the inout_dst_len > UINT32_MAX then
       \<lparr>rc = - 2, dst_mem = dst, calls = [], len_mem = inout_dst_len\<rparr>
     else
       let out_len0 = (ucast (the inout_dst_len) :: uLong);
           (zrc, d', out_len) =
             compress2 L (the dst) out_len0 (the src) (ucast src_len) (Z_DEFAULT_COMPRESSION L);
           c1 = [Call_compress2 out_len0 (ucast src_len) (Z_DEFAULT_COMPRESSION L)]
       in
       if zrc \<noteq> Z_OK L then
         \<lparr>rc = - 3, dst_mem = Some d', calls = c1, len_mem = inout_dst_len\<rparr>
       else
         \<lparr>rc = 0, dst_mem = Some d', calls = c1, len_mem = Some (ucast out_len)\<rparr>)"

definition wax_deflate_decompress ::
  "ext_libs \<Rightarrow> byte list option \<Rightarrow> size_t \<Rightarrow> byte list option \<Rightarrow> size_t option
    \<Rightarrow> shim_len_result" where
  "wax_deflate_decompress L src src_len dst inout_dst_len =
    (if src = None \<or> dst = None \<or> inout_dst_len = None then
       \<lparr>rc = - 1, dst_mem = dst, calls = [], len_mem = inout_dst_len\<rparr>
     else if src_len > UINT32_MAX \<or> the inout_dst_len > UINT32_MAX then
       \<lparr>rc = - 2, dst_mem = dst, calls = [], len_mem = inout_dst_len\<rparr>
     else
       let out_len0 = (ucast (the inout_dst_len) :: uLong);
           (zrc, d', out_len) = uncompress L (the dst) out_len0 (the src) (ucast src_len);
           c1 = [Call_uncompress out_len0 (ucast src_len)]
       in
       if zrc \<noteq> Z_OK L then
         \<lparr>rc = - 3, dst_mem = Some d', calls = c1, len_mem = inout_dst_len\<rparr>
       else
         \<lparr>rc = 0, dst_mem = Some d', calls = c1, len_mem = Some (ucast out_len)\<rparr>)"

subsection \<open>A library instance\<close>

text \<open>
  A concrete value of \<open>ext_libs\<close>, on which the shims can be run: a block is a zero byte
  followed by the input bytes. \<open>stored_compressBound\<close> is the macro
  \<^verbatim>\<open>LZ4_COMPRESSBOUND\<close> of LZ4; the two zlib statuses besides \<^verbatim>\<open>Z_OK = 0\<close> are
  \<^verbatim>\<open>Z_DATA_ERROR = -3\<close> and \<^verbatim>\<open>Z_BUF_ERROR = -5\<close>. It is neither LZ4 nor zlib: it serves
  to evaluate the shims on concrete arguments and to show that the properties required of
  a library below can be met.
\<close>

definition stored_compressBound :: "int32 \<Rightarrow> int32" where
  "stored_compressBound n = (if n > 0x7E000000 then 0 else n + n div 255 + 16)"

definition stored_compress_default ::
  "byte list \<Rightarrow> byte list \<Rightarrow> int32 \<Rightarrow> int32 \<Rightarrow> int32 \<times> byte list" where
  "stored_compress_default s d n cap =
    (if 0 \<le>s n \<and> n <s cap then
       (n + 1, (0 # take (unat n) s) @ drop (Suc (unat n)) d)
     else (0, d))"

definition stored_decompress_safe ::
  "byte list \<Rightarrow> byte list \<Rightarrow> int32 \<Rightarrow> int32 \<Rightarrow> int32 \<times> byte list" where
  "stored_decompress_safe c e w cap =
    (if 0 <s w \<and> w - 1 \<le>s cap \<and> take 1 c = [0] then
       (w - 1, take (unat (w - 1)) (tl c) @ drop (unat (w - 1)) e)
     else (- 1, e))"

definition stored_compress2 ::
  "byte list \<Rightarrow> uLong \<Rightarrow> byte list \<Rightarrow> uLong \<Rightarrow> int32 \<Rightarrow> int32 \<times> byte list \<times> uLong" where
  "stored_compress2 d cap s n lvl =
    (if n < cap then
       (0, (0 # take (unat n) s) @ drop (Suc (unat n)) d, n + 1)
     else (- 5, d, cap))"

definition stored_uncompress ::
  "byte list \<Rightarrow> uLong \<Rightarrow> byte list \<Rightarrow> uLong \<Rightarrow> int32 \<times> byte list \<times> uLong" where
  "stored_uncompress e cap c w =
    (if w = 0 \<or> take 1 c \<noteq> [0] then (- 3, e, cap)
     else if w - 1 \<le> cap then
       (0, take (unat (w - 1)) (tl c) @ drop (unat (w - 1)) e, w - 1)
     else (- 5, e, cap))"

definition stored_libs :: ext_libs where
  "stored_libs =
    \<lparr>LZ4_compressBound = stored_compressBound,
     LZ4_compress_default = stored_compress_default,
     LZ4_decompress_safe = stored_decompress_safe,
     compress2 = stored_compress2,
     uncompress = stored_uncompress,
     Z_OK = 0,
     Z_DEFAULT_COMPRESSION = - 1\<rparr>"

subsection \<open>What the shims rely on\<close>

text \<open>
  Whether decompression gives back what was compressed is decided inside LZ4 and zlib.
  The properties below are the part of their documented behaviour that the round-trip
  claims rest on; they are hypotheses of those theorems, never axioms.

  \<open>lz4_lossless\<close>: \<^verbatim>\<open>LZ4_compress_default\<close> succeeds when the capacity is at least a
  positive \<^verbatim>\<open>LZ4_compressBound\<close> of the input size and the buffers are as large as the
  sizes passed, it writes at most the capacity, and \<^verbatim>\<open>LZ4_decompress_safe\<close>, given the
  bytes of that block and a destination of the original size, reports the original size
  and writes the original bytes.

  \<open>zlib_lossless\<close>: the same for \<^verbatim>\<open>compress2\<close> at the default level and \<^verbatim>\<open>uncompress\<close>,
  for source lengths up to \<^verbatim>\<open>UINT32_MAX\<close>, with \<open>zbound\<close> standing for zlib's
  \<^verbatim>\<open>compressBound\<close> and any destination capacity not below the original length.

  \<open>lz4_rejects_small_dst\<close>: if \<^verbatim>\<open>LZ4_decompress_safe\<close> decodes a block to \<open>m\<close> bytes when
  the destination has room for \<open>m\<close>, it reports an error for any smaller destination.
\<close>

definition lz4_lossless :: "ext_libs \<Rightarrow> bool" where
  "lz4_lossless L \<longleftrightarrow>
    (\<forall>s d n cap.
       unat n \<le> length s \<and> 0 <s LZ4_compressBound L n \<and> LZ4_compressBound L n \<le>s cap \<and>
       unat cap \<le> length d \<longrightarrow>
       (case LZ4_compress_default L s d n cap of (w, d') \<Rightarrow>
          0 <s w \<and> w \<le>s cap \<and> length d' = length d \<and>
          (\<forall>c e. take (unat w) c = take (unat w) d' \<and> unat n \<le> length e \<longrightarrow>
             (case LZ4_decompress_safe L c e w n of (m, e') \<Rightarrow>
                m = n \<and> take (unat n) e' = take (unat n) s))))"

definition zlib_lossless :: "ext_libs \<Rightarrow> (uLong \<Rightarrow> uLong) \<Rightarrow> bool" where
  "zlib_lossless L zbound \<longleftrightarrow>
    (\<forall>d cap s n.
       unat n \<le> length s \<and> n \<le> 0xFFFFFFFF \<and> zbound n \<le> cap \<and> unat cap \<le> length d \<longrightarrow>
       (case compress2 L d cap s n (Z_DEFAULT_COMPRESSION L) of (z, d', w) \<Rightarrow>
          z = Z_OK L \<and> w \<le> cap \<and> length d' = length d \<and>
          (\<forall>c e cap_out.
             take (unat w) c = take (unat w) d' \<and> n \<le> cap_out \<and> unat cap_out \<le> length e \<longrightarrow>
             (case uncompress L e cap_out c w of (z2, e', m) \<Rightarrow>
                z2 = Z_OK L \<and> m = n \<and> take (unat n) e' = take (unat n) s))))"

definition stored_zbound :: "uLong \<Rightarrow> uLong" where
  "stored_zbound n = n + 1"

definition lz4_rejects_small_dst :: "ext_libs \<Rightarrow> bool" where
  "lz4_rejects_small_dst L \<longleftrightarrow>
    (\<forall>c e e' w m cap.
       fst (LZ4_decompress_safe L c e w m) = m \<and> 0 \<le>s cap \<and> cap <s m \<longrightarrow>
       fst (LZ4_decompress_safe L c e' w cap) <s 0)"

text \<open>
  The round trips of the specification, \<open>FastDecompress(FastCompress(b))\<close> and
  \<open>DeflateDecompress(DeflateCompress(b))\<close>: compress \<open>b\<close> into the buffer \<open>d\<close> of declared
  capacity \<open>cap\<close>, then decompress the bytes that were written into the buffer \<open>e\<close>. The
  result is \<open>None\<close> when either call fails, and otherwise the decompressed bytes: the first
  \<open>length b\<close> bytes of \<open>e\<close> for LZ4 (the expected length is \<open>length b\<close>), the number of
  bytes left in the length object for zlib.
\<close>

definition fast_round_trip ::
  "ext_libs \<Rightarrow> byte list \<Rightarrow> byte list \<Rightarrow> size_t \<Rightarrow> byte list \<Rightarrow> byte list option" where
  "fast_round_trip L b d cap e =
    (let r = wax_lz4_compress L (Some b) (of_nat (length b)) (Some d) cap (Some 0) in
     case (rc r = 0, dst_mem r, len_mem r) of
       (True, Some c, Some w) \<Rightarrow>
         (let r' = wax_lz4_decompress L (Some (take (unat w) c)) w (Some e) (of_nat (length b))
          in if rc r' = 0 then map_option (take (length b)) (dst_mem r') else None)
     | _ \<Rightarrow> None)"

definition deflate_round_trip ::
  "ext_libs \<Rightarrow> byte list \<Rightarrow> byte list \<Rightarrow> size_t \<Rightarrow> byte list \<Rightarrow> size_t
    \<Rightarrow> byte list option" where
  "deflate_round_trip L b d cap e cap_out =
    (let r = wax_deflate_compress L (Some b) (of_nat (length b)) (Some d) (Some cap) in
     case (rc r = 0, dst_mem r, len_mem r) of
       (True, Some c, Some w) \<Rightarrow>
         (let r' = wax_deflate_decompress L (Some (take (unat w) c)) w (Some e) (Some cap_out)
          in case (rc r' = 0, dst_mem r', len_mem r') of
               (True, Some out, Some m) \<Rightarrow> Some (take (unat m) out)
             | _ \<Rightarrow> None)
     | _ \<Rightarrow> None)"

section \<open>Auxiliary facts\<close>

lemmas shim_defs = wax_lz4_compress_def wax_lz4_decompress_def wax_deflate_compress_def
  wax_deflate_decompress_def
lemmas stored_defs = stored_libs_def stored_compressBound_def stored_compress_default_def
  stored_decompress_safe_def stored_compress2_def stored_uncompress_def

lemma scast_pos_uint:
  fixes b :: int32
  assumes "0 \<le>s b"
  shows "uint (scast b :: size_t) = sint b"
proof -
  have "0 \<le> sint b" using assms by (simp add: word_sle_eq)
  moreover have "sint b < 2 ^ 31" using sint_lt [of b] by simp
  ultimately have "sint b mod 2 ^ 64 = sint b" by (intro mod_pos_pos_trivial) auto
  then show ?thesis
    unfolding scast_eq uint_word_of_int by simp
qed

lemma sint_small:
  fixes x :: int32
  assumes "uint x < 2 ^ 31"
  shows "sint x = uint x"
proof -
  have "(- (2 ^ 31) :: int) \<le> 0" by simp
  also have "0 \<le> uint x" by (rule uint_nonnegative)
  finally have "signed_take_bit 31 (uint x) = uint x"
    using assms by (intro signed_take_bit_int_eq_self)
  then show ?thesis by (simp add: sint_uint)
qed

lemma stored_bound_pos:
  assumes "0 <s stored_compressBound n"
  shows "uint n \<le> 0x7E000000"
    and "sint n = uint n"
    and "sint (stored_compressBound n) = uint n + uint n div 255 + 16"
proof -
  have le: "n \<le> 0x7E000000"
    using assms by (auto simp: stored_compressBound_def word_sless_alt split: if_splits)
  then show u: "uint n \<le> 0x7E000000" by (simp add: word_le_def)
  then show "sint n = uint n" by (intro sint_small) simp
  have nn: "0 \<le> uint n" by simp
  have d: "uint n div 255 \<le> uint n" using nn by presburger
  have "uint (n + n div 255 + 16) = (uint n + uint n div 255 + 16) mod 2 ^ 32"
    by (simp add: uint_word_ariths uint_div mod_simps)
  also have "\<dots> = uint n + uint n div 255 + 16"
    using u d nn by (intro mod_pos_pos_trivial) auto
  finally have e: "uint (n + n div 255 + 16) = uint n + uint n div 255 + 16" .
  have "uint (n + n div 255 + 16) < 2 ^ 31"
    using u d by (simp add: e)
  then have "sint (n + n div 255 + 16) = uint (n + n div 255 + 16)"
    by (rule sint_small)
  then show "sint (stored_compressBound n) = uint n + uint n div 255 + 16"
    using le e by (simp add: stored_compressBound_def not_less [symmetric])
qed

lemma uint_of_nonneg:
  fixes x :: int32
  assumes "0 \<le> sint x"
  shows "uint x = sint x"
proof -
  have "sint x < 2 ^ 32" using sint_lt [of x] by simp
  then have "take_bit 32 (sint x) = sint x"
    using assms by (intro take_bit_int_eq_self)
  then show ?thesis by (simp add: uint_sint)
qed

lemma stored_bound_fits:
  assumes bp: "0 <s stored_compressBound n"
    and bc: "stored_compressBound n \<le>s cap"
  shows "0 \<le>s n" and "n <s cap" and "0 <s n + 1" and "n + 1 \<le>s cap"
    and "unat (n + 1) = Suc (unat n)" and "Suc (unat n) \<le> unat cap"
proof -
  note f = stored_bound_pos [OF bp]
  have nn: "0 \<le> uint n" by simp
  have d: "0 \<le> uint n div 255" using nn by presburger
  have sc: "uint n + uint n div 255 + 16 \<le> sint cap"
    using bc f(3) by (simp add: word_sle_eq)
  have capu: "uint cap = sint cap"
    using sc nn d by (intro uint_of_nonneg) linarith
  have "uint (n + 1) = (uint n + 1) mod 2 ^ 32"
    by (simp add: uint_word_ariths)
  also have "\<dots> = uint n + 1"
    using f(1) nn by (intro mod_pos_pos_trivial) auto
  finally have u1: "uint (n + 1) = uint n + 1" .
  have "uint (n + 1) < 2 ^ 31" using f(1) by (simp add: u1)
  then have s1: "sint (n + 1) = uint n + 1" using u1 by (simp add: sint_small)
  show "0 \<le>s n" using f(2) nn by (simp add: word_sle_eq)
  show "n <s cap" using f(2) sc d by (simp add: word_sless_alt)
  show "0 <s n + 1" using s1 nn by (simp add: word_sless_alt)
  show "n + 1 \<le>s cap" using s1 sc d by (simp add: word_sle_eq)
  have "int (unat (n + 1)) = int (unat n) + 1"
    using u1 unfolding uint_nat .
  then show "unat (n + 1) = Suc (unat n)" by linarith
  have "uint n < uint cap" using capu sc d by linarith
  then have "int (unat n) < int (unat cap)" unfolding uint_nat .
  then show "Suc (unat n) \<le> unat cap" by linarith
qed

lemma stored_block_prefix:
  assumes "take (Suc k) c = take (Suc k) ((0 # take k s) @ r)" and "k \<le> length s"
  shows "take 1 c = [0::byte]" and "take k (tl c) = take k s"
  using assms by (cases c; simp)+

lemma stored_lz4_lossless: "lz4_lossless stored_libs"
  unfolding lz4_lossless_def
proof (intro allI impI, elim conjE)
  fix s d :: "byte list" and n cap :: int32
  assume ns: "unat n \<le> length s"
    and bp: "0 <s LZ4_compressBound stored_libs n"
    and bc: "LZ4_compressBound stored_libs n \<le>s cap"
    and cd: "unat cap \<le> length d"
  have bp': "0 <s stored_compressBound n" and bc': "stored_compressBound n \<le>s cap"
    using bp bc by (simp_all add: stored_libs_def)
  note g = stored_bound_fits [OF bp' bc']
  have comp: "LZ4_compress_default stored_libs s d n cap =
      (n + 1, (0 # take (unat n) s) @ drop (Suc (unat n)) d)"
    using g(1,2) by (simp add: stored_libs_def stored_compress_default_def)
  have len: "length ((0 # take (unat n) s) @ drop (Suc (unat n)) d) = length d"
    using ns cd g(6) by simp
  have inner: "case LZ4_decompress_safe stored_libs c e (n + 1) n of
        (m, e') \<Rightarrow> m = n \<and> take (unat n) e' = take (unat n) s"
    if pre: "take (unat (n + 1)) c =
        take (unat (n + 1)) ((0 # take (unat n) s) @ drop (Suc (unat n)) d)"
      and el: "unat n \<le> length e" for c e
  proof -
    note p = stored_block_prefix [OF pre [unfolded g(5)] ns]
    have l: "length (take (unat n) (tl c)) = unat n"
      using p(2) ns by simp
    show ?thesis
      using g(3) p l by (simp add: stored_libs_def stored_decompress_safe_def)
  qed
  show "case LZ4_compress_default stored_libs s d n cap of
      (w, d') \<Rightarrow> 0 <s w \<and> w \<le>s cap \<and> length d' = length d \<and>
        (\<forall>c e. take (unat w) c = take (unat w) d' \<and> unat n \<le> length e \<longrightarrow>
           (case LZ4_decompress_safe stored_libs c e w n of
              (m, e') \<Rightarrow> m = n \<and> take (unat n) e' = take (unat n) s))"
    unfolding comp using g(3,4) len inner by simp
qed

lemma stored_zbound_fits:
  fixes n cap :: uLong
  assumes "n \<le> 0xFFFFFFFF" and "stored_zbound n \<le> cap"
  shows "n < cap" and "n + 1 \<noteq> 0" and "unat (n + 1) = Suc (unat n)"
proof -
  have "uint n \<le> 0xFFFFFFFF" using assms(1) by (simp add: word_le_def)
  then have u: "unat n \<le> 0xFFFFFFFF" unfolding uint_nat by linarith
  have "unat (n + 1) = (unat n + 1) mod 2 ^ 64"
    by (simp add: unat_word_ariths)
  also have "\<dots> = unat n + 1" using u by (intro mod_less) simp
  finally show s: "unat (n + 1) = Suc (unat n)" by simp
  then show "n + 1 \<noteq> 0" by (metis Zero_not_Suc unat_0)
  have "unat (n + 1) \<le> unat cap"
    using assms(2) by (simp add: stored_zbound_def word_le_nat_alt)
  then show "n < cap" using s by (simp add: word_less_nat_alt)
qed

lemma stored_zlib_lossless: "zlib_lossless stored_libs stored_zbound"
  unfolding zlib_lossless_def
proof (intro allI impI, elim conjE)
  fix s d :: "byte list" and n cap :: uLong
  assume ns: "unat n \<le> length s"
    and n32: "n \<le> 0xFFFFFFFF"
    and bc: "stored_zbound n \<le> cap"
    and cd: "unat cap \<le> length d"
  note g = stored_zbound_fits [OF n32 bc]
  have g4: "Suc (unat n) \<le> unat cap" using g(1) by (simp add: word_less_nat_alt)
  have comp: "compress2 stored_libs d cap s n (Z_DEFAULT_COMPRESSION stored_libs) =
      (0, (0 # take (unat n) s) @ drop (Suc (unat n)) d, n + 1)"
    using g(1) by (simp add: stored_libs_def stored_compress2_def)
  have len: "length ((0 # take (unat n) s) @ drop (Suc (unat n)) d) = length d"
    using ns cd g4 by simp
  have wc: "n + 1 \<le> cap" using bc by (simp add: stored_zbound_def)
  have inner: "case uncompress stored_libs e cap_out c (n + 1) of
        (z2, e', m) \<Rightarrow> z2 = Z_OK stored_libs \<and> m = n \<and> take (unat n) e' = take (unat n) s"
    if pre: "take (unat (n + 1)) c =
        take (unat (n + 1)) ((0 # take (unat n) s) @ drop (Suc (unat n)) d)"
      and nc: "n \<le> cap_out" for c e cap_out
  proof -
    note p = stored_block_prefix [OF pre [unfolded g(3)] ns]
    have l: "length (take (unat n) (tl c)) = unat n"
      using p(2) ns by simp
    show ?thesis
      using g(2) nc p l by (simp add: stored_libs_def stored_uncompress_def)
  qed
  show "case compress2 stored_libs d cap s n (Z_DEFAULT_COMPRESSION stored_libs) of
      (z, d', w) \<Rightarrow> z = Z_OK stored_libs \<and> w \<le> cap \<and> length d' = length d \<and>
        (\<forall>c e cap_out. take (unat w) c = take (unat w) d' \<and> n \<le> cap_out \<and> unat cap_out \<le> length e \<longrightarrow>
           (case uncompress stored_libs e cap_out c w of
              (z2, e', m) \<Rightarrow> z2 = Z_OK stored_libs \<and> m = n \<and> take (unat n) e' = take (unat n) s))"
    unfolding comp using wc len inner by (simp add: stored_libs_def)
qed

lemma int32_max_uint:
  fixes x :: size_t
  shows "x \<le> INT32_MAX \<longleftrightarrow> uint x \<le> 0x7FFFFFFF"
  by (simp add: INT32_MAX_def word_le_def)

lemma ucast_small:
  fixes x :: size_t
  assumes "x \<le> INT32_MAX"
  shows "uint (ucast x :: int32) = uint x" and "sint (ucast x :: int32) = uint x"
    and "unat (ucast x :: int32) = unat x" and "(scast (ucast x :: int32) :: size_t) = x"
    and "0 \<le>s (ucast x :: int32)"
proof -
  have le: "uint x \<le> 0x7FFFFFFF" using assms by (simp add: int32_max_uint)
  have nn: "0 \<le> uint x" by simp
  have "uint (ucast x :: int32) = uint x mod 2 ^ 32"
    unfolding ucast_eq uint_word_of_int by simp
  also have "\<dots> = uint x" using le nn by (intro mod_pos_pos_trivial) auto
  finally show u: "uint (ucast x :: int32) = uint x" .
  have "uint (ucast x :: int32) < 2 ^ 31" using le by (simp add: u)
  then show s: "sint (ucast x :: int32) = uint x" using u by (simp add: sint_small)
  have "int (unat (ucast x :: int32)) = int (unat x)" using u unfolding uint_nat .
  then show "unat (ucast x :: int32) = unat x" by linarith
  show p: "0 \<le>s (ucast x :: int32)" using s nn by (simp add: word_sle_eq)
  have "uint (scast (ucast x :: int32) :: size_t) = uint x"
    using scast_pos_uint [OF p] s by simp
  then show "(scast (ucast x :: int32) :: size_t) = x"
    by (simp add: word_uint_eq_iff)
qed

lemma scast_nonneg:
  fixes w :: int32
  assumes "0 \<le>s w"
  shows "(scast w :: size_t) \<le> INT32_MAX" and "(ucast (scast w :: size_t) :: int32) = w"
    and "unat (scast w :: size_t) = unat w"
proof -
  have nn: "0 \<le> sint w" using assms by (simp add: word_sle_eq)
  have lt: "sint w < 2 ^ 31" using sint_lt [of w] by simp
  note u = scast_pos_uint [OF assms]
  show le: "(scast w :: size_t) \<le> INT32_MAX"
    using lt by (simp add: int32_max_uint u)
  have uw: "uint w = sint w" using nn by (rule uint_of_nonneg)
  have "uint (ucast (scast w :: size_t) :: int32) = uint w"
    using ucast_small(1) [OF le] u uw by simp
  then show "(ucast (scast w :: size_t) :: int32) = w" by (simp add: word_uint_eq_iff)
  have "int (unat (scast w :: size_t)) = int (unat w)"
    using u uw unfolding uint_nat by simp
  then show "unat (scast w :: size_t) = unat w" by linarith
qed

lemma of_nat_len_small:
  assumes "k \<le> 0xFFFFFFFF"
  shows "unat (of_nat k :: size_t) = k" and "(of_nat k :: size_t) \<le> UINT32_MAX"
    and "k \<le> 0x7FFFFFFF \<Longrightarrow> (of_nat k :: size_t) \<le> INT32_MAX"
proof -
  have "k < 2 ^ 64" using assms by simp
  then show u: "unat (of_nat k :: size_t) = k" by (simp add: unat_of_nat)
  show "(of_nat k :: size_t) \<le> UINT32_MAX"
    using assms by (simp add: word_le_nat_alt u UINT32_MAX_def)
  show "(of_nat k :: size_t) \<le> INT32_MAX" if "k \<le> 0x7FFFFFFF"
    using that by (simp add: word_le_nat_alt u INT32_MAX_def)
qed

lemmas sless = word_sle_eq word_sless_alt

lemma stored_rejects_small_dst: "lz4_rejects_small_dst stored_libs"
  unfolding lz4_rejects_small_dst_def
proof (intro allI impI, elim conjE)
  fix c e e' :: "byte list" and w m cap :: int32
  assume full: "fst (LZ4_decompress_safe stored_libs c e w m) = m"
    and nn: "0 \<le>s cap" and lt: "cap <s m"
  have m: "w - 1 = m"
  proof (rule ccontr)
    assume "w - 1 \<noteq> m"
    then have "m = - 1"
      using full by (simp add: stored_libs_def stored_decompress_safe_def split: if_splits)
    then show False using nn lt by (simp add: sless)
  qed
  have "\<not> w - 1 \<le>s cap" using lt m by (simp add: sless)
  then show "fst (LZ4_decompress_safe stored_libs c e' w cap) <s 0"
    by (simp add: stored_libs_def stored_decompress_safe_def sless)
qed

lemma scast_eq_iff:
  fixes w :: int32 and x :: size_t
  assumes "0 \<le>s w"
  shows "scast w = x \<longleftrightarrow> sint w = uint x"
  using scast_pos_uint [OF assms] by (auto simp add: word_uint_eq_iff)

lemma deflate_compress_calls:
  "calls (wax_deflate_compress L src src_len dst lp) = [] \<or>
   calls (wax_deflate_compress L src src_len dst lp)
     = [Call_compress2 (the lp) src_len (Z_DEFAULT_COMPRESSION L)]"
  by (simp add: wax_deflate_compress_def Let_def split: prod.splits)

lemma ucast_of_nat_small:
  assumes "k \<le> 0x7FFFFFFF"
  shows "(ucast (of_nat k :: size_t) :: int32) = of_nat k"
proof -
  have k32: "k \<le> 0xFFFFFFFF" using assms by simp
  have le: "(of_nat k :: size_t) \<le> INT32_MAX"
    using of_nat_len_small(3) [OF k32 assms] .
  have "k < 2 ^ 32" using assms by simp
  then have u32: "unat (of_nat k :: int32) = k" by (simp add: unat_of_nat)
  have "unat (ucast (of_nat k :: size_t) :: int32) = k"
    using ucast_small(3) [OF le] of_nat_len_small(1) [OF k32] by simp
  then show ?thesis using u32 by (simp add: word_unat_eq_iff)
qed

lemma lz4_compress_lossless:
  assumes c: "lz4_lossless L"
    and sl: "src_len \<le> INT32_MAX" and ns: "unat src_len \<le> length s"
    and bp: "0 <s LZ4_compressBound L (ucast src_len)"
    and bc: "(scast (LZ4_compressBound L (ucast src_len)) :: size_t) \<le> cap"
    and cl: "cap \<le> INT32_MAX" and cd: "unat cap \<le> length d"
    and comp: "LZ4_compress_default L s d (ucast src_len) (ucast cap) = (w, d')"
  shows "wax_lz4_compress L (Some s) src_len (Some d) cap (Some ol) =
      \<lparr>rc = 0, dst_mem = Some d',
       calls = [Call_LZ4_compressBound (ucast src_len),
                Call_LZ4_compress_default (ucast src_len) (ucast cap)],
       len_mem = Some (scast w)\<rparr>"
    and "0 <s w"
    and "take (unat w) c' = take (unat w) d' \<Longrightarrow> unat src_len \<le> length e \<Longrightarrow>
      LZ4_decompress_safe L c' e w (ucast src_len) = (m, e') \<Longrightarrow>
      m = ucast src_len \<and> take (unat src_len) e' = take (unat src_len) s"
proof -
  let ?n = "ucast src_len :: int32" and ?c = "ucast cap :: int32"
  let ?b = "LZ4_compressBound L ?n"
  have un: "unat ?n = unat src_len" using ucast_small(3) [OF sl] .
  have b0: "0 \<le>s ?b" and nle: "\<not> ?b \<le>s 0" using bp by (simp_all add: sless)
  have "uint (scast ?b :: size_t) \<le> uint cap" using bc by (simp add: word_le_def)
  then have "sint ?b \<le> sint ?c"
    using scast_pos_uint [OF b0] ucast_small(2) [OF cl] by simp
  then have bc': "?b \<le>s ?c" by (simp add: word_sle_eq)
  have cd': "unat ?c \<le> length d" using ucast_small(3) [OF cl] cd by simp
  have pre: "unat ?n \<le> length s \<and> 0 <s ?b \<and> ?b \<le>s ?c \<and> unat ?c \<le> length d"
    using ns un bp bc' cd' by simp
  have k: "0 <s w \<and> w \<le>s ?c \<and> length d' = length d \<and>
          (\<forall>c e. take (unat w) c = take (unat w) d' \<and> unat ?n \<le> length e \<longrightarrow>
             (case LZ4_decompress_safe L c e w ?n of (m, e') \<Rightarrow>
                m = ?n \<and> take (unat ?n) e' = take (unat ?n) s))"
    using c [unfolded lz4_lossless_def, rule_format, OF pre] unfolding comp by simp
  then show wp: "0 <s w" by simp
  have wnle: "\<not> w \<le>s 0" using wp by (simp add: sless)
  show "wax_lz4_compress L (Some s) src_len (Some d) cap (Some ol) =
      \<lparr>rc = 0, dst_mem = Some d',
       calls = [Call_LZ4_compressBound ?n, Call_LZ4_compress_default ?n ?c],
       len_mem = Some (scast w)\<rparr>"
    using sl cl nle bc comp wnle
    by (simp add: wax_lz4_compress_def Let_def not_less [symmetric])
  show "m = ?n \<and> take (unat src_len) e' = take (unat src_len) s"
    if p: "take (unat w) c' = take (unat w) d'" and q: "unat src_len \<le> length e"
      and dec: "LZ4_decompress_safe L c' e w ?n = (m, e')"
  proof -
    have pq: "take (unat w) c' = take (unat w) d' \<and> unat ?n \<le> length e"
      using p q un by simp
    have "case LZ4_decompress_safe L c' e w ?n of (m, e') \<Rightarrow>
                m = ?n \<and> take (unat ?n) e' = take (unat ?n) s"
      using k [THEN conjunct2, THEN conjunct2, THEN conjunct2, rule_format, OF pq] .
    then show ?thesis unfolding dec un by simp
  qed
qed

lemma fast_round_trip_lossless:
  assumes c: "lz4_lossless L"
    and len: "length b \<le> 0x7FFFFFFF"
    and bp: "0 <s LZ4_compressBound L (of_nat (length b))"
    and bc: "(scast (LZ4_compressBound L (of_nat (length b))) :: size_t) \<le> cap"
    and cl: "cap \<le> INT32_MAX" and cd: "unat cap \<le> length d"
    and el: "length b \<le> length e"
  shows "rc (wax_lz4_compress L (Some b) (of_nat (length b)) (Some d) cap (Some ol)) = 0"
    and "fast_round_trip L b d cap e = Some b"
proof -
  let ?n = "of_nat (length b) :: size_t"
  have k32: "length b \<le> 0xFFFFFFFF" using len by simp
  have sl: "?n \<le> INT32_MAX" using of_nat_len_small(3) [OF k32 len] .
  have un: "unat ?n = length b" using of_nat_len_small(1) [OF k32] .
  have uc: "(ucast ?n :: int32) = of_nat (length b)" using ucast_of_nat_small [OF len] .
  have ns: "unat ?n \<le> length b" using un by simp
  have bp': "0 <s LZ4_compressBound L (ucast ?n)" using bp uc by simp
  have bc': "(scast (LZ4_compressBound L (ucast ?n)) :: size_t) \<le> cap" using bc uc by simp
  obtain w d' where comp: "LZ4_compress_default L b d (ucast ?n) (ucast cap) = (w, d')"
    by (cases "LZ4_compress_default L b d (ucast ?n) (ucast cap)")
  note f = lz4_compress_lossless [OF c sl ns bp' bc' cl cd comp]
  show "rc (wax_lz4_compress L (Some b) (of_nat (length b)) (Some d) cap (Some ol)) = 0"
    by (simp add: f(1))
  have w0: "0 \<le>s w" using f(2) by (simp add: sless)
  note g = scast_nonneg [OF w0]
  obtain m e' where
    dec: "LZ4_decompress_safe L (take (unat w) d') e w (ucast ?n) = (m, e')"
    by (cases "LZ4_decompress_safe L (take (unat w) d') e w (ucast ?n)")
  have h: "m = ucast ?n" and out: "take (length b) e' = b"
    using f(3) [of "take (unat w) d'" e m e'] dec el un by simp_all
  have "\<not> m <s 0" using ucast_small(5) [OF sl] h by (simp add: sless)
  moreover have "(scast m :: size_t) = ?n" using ucast_small(4) [OF sl] h by simp
  ultimately have r2: "wax_lz4_decompress L (Some (take (unat w) d')) (scast w) (Some e) ?n =
      \<lparr>rc = 0, dst_mem = Some e',
       calls = [Call_LZ4_decompress_safe w (ucast ?n)]\<rparr>"
    using g(1,2) sl dec
    by (simp add: wax_lz4_decompress_def Let_def not_less [symmetric])
  show "fast_round_trip L b d cap e = Some b"
    by (simp add: fast_round_trip_def Let_def f(1) g(3) r2 out)
qed

lemma deflate_round_trip_lossless:
  assumes c: "zlib_lossless L zbound"
    and len: "length b \<le> 0xFFFFFFFF"
    and bc: "zbound (of_nat (length b)) \<le> cap"
    and cl: "cap \<le> UINT32_MAX" and cd: "unat cap \<le> length d"
    and c2: "of_nat (length b) \<le> cap_out" and c2l: "cap_out \<le> UINT32_MAX"
    and el: "unat cap_out \<le> length e"
  shows "rc (wax_deflate_compress L (Some b) (of_nat (length b)) (Some d) (Some cap)) = 0"
    and "deflate_round_trip L b d cap e cap_out = Some b"
proof -
  let ?n = "of_nat (length b) :: size_t"
  have sl: "?n \<le> UINT32_MAX" using of_nat_len_small(2) [OF len] .
  have un: "unat ?n = length b" using of_nat_len_small(1) [OF len] .
  obtain z d' w where
    comp: "compress2 L d cap b ?n (Z_DEFAULT_COMPRESSION L) = (z, d', w)"
    by (cases "compress2 L d cap b ?n (Z_DEFAULT_COMPRESSION L)")
  have pre: "unat ?n \<le> length b \<and> ?n \<le> 0xFFFFFFFF \<and> zbound ?n \<le> cap \<and> unat cap \<le> length d"
    using un sl bc cd by (simp add: UINT32_MAX_def)
  have k: "z = Z_OK L \<and> w \<le> cap \<and> length d' = length d \<and>
      (\<forall>c e cap_out. take (unat w) c = take (unat w) d' \<and> ?n \<le> cap_out \<and> unat cap_out \<le> length e \<longrightarrow>
         (case uncompress L e cap_out c w of (z2, e', m) \<Rightarrow>
            z2 = Z_OK L \<and> m = ?n \<and> take (unat ?n) e' = take (unat ?n) b))"
    using c [unfolded zlib_lossless_def, rule_format, OF pre] unfolding comp by simp
  have r: "wax_deflate_compress L (Some b) ?n (Some d) (Some cap) =
      \<lparr>rc = 0, dst_mem = Some d',
       calls = [Call_compress2 cap ?n (Z_DEFAULT_COMPRESSION L)], len_mem = Some w\<rparr>"
    using sl cl comp k
    by (simp add: wax_deflate_compress_def Let_def not_less [symmetric])
  show "rc (wax_deflate_compress L (Some b) (of_nat (length b)) (Some d) (Some cap)) = 0"
    by (simp add: r)
  have "w \<le> cap" using k [THEN conjunct2, THEN conjunct1] .
  then have wl: "w \<le> UINT32_MAX" using cl by (rule order_trans)
  obtain z2 e' m where
    dec: "uncompress L e cap_out (take (unat w) d') w = (z2, e', m)"
    by (cases "uncompress L e cap_out (take (unat w) d') w")
  have pq: "take (unat w) (take (unat w) d') = take (unat w) d' \<and> ?n \<le> cap_out \<and>
      unat cap_out \<le> length e"
    using c2 el by simp
  have "case uncompress L e cap_out (take (unat w) d') w of (z2, e', m) \<Rightarrow>
      z2 = Z_OK L \<and> m = ?n \<and> take (unat ?n) e' = take (unat ?n) b"
    using k [THEN conjunct2, THEN conjunct2, THEN conjunct2, rule_format, OF pq] .
  then have h: "z2 = Z_OK L" "m = ?n" "take (length b) e' = b"
    unfolding dec un by simp_all
  have r2: "wax_deflate_decompress L (Some (take (unat w) d')) w (Some e) (Some cap_out) =
      \<lparr>rc = 0, dst_mem = Some e', calls = [Call_uncompress cap_out w], len_mem = Some ?n\<rparr>"
    using wl c2l dec h(1,2)
    by (simp add: wax_deflate_decompress_def Let_def not_less [symmetric])
  show "deflate_round_trip L b d cap e cap_out = Some b"
    by (simp add: deflate_round_trip_def Let_def r r2 un h(3))
qed

section \<open>Argument validation\<close>

text \<open>
  Claim C2, as the specification states it: \<open>InvalidArgument\<close> (return code \<open>-1\<close>) is
  returned only when a buffer pointer is absent while the length implies that it must be
  present, so that FastCompress accepts a null input pointer when the input length is 0.
  The code does not do that: the first statement of \<^verbatim>\<open>wax_lz4_compress\<close> rejects any null
  pointer before it looks at a length. A call with a null \<^verbatim>\<open>src\<close> and \<^verbatim>\<open>src_len = 0\<close>, a
  16-byte output buffer and a length object returns \<open>-1\<close>.
\<close>

theorem null_input_zero_length_rejected:
  "rc (wax_lz4_compress stored_libs None 0 (Some [0, 0, 0, 0, 0, 0, 0, 0, 0, 0, 0, 0, 0, 0, 0, 0]) 16 (Some 0)) = - 1"
  by (simp add: wax_lz4_compress_def)

text \<open>
  Claim C2, amended: each of the four operations returns \<open>-1\<close> exactly when one of its
  pointer arguments is null, whatever the lengths are, for every library.
\<close>

theorem invalid_argument_iff_null_pointer:
  "(rc (wax_lz4_compress L src src_len dst dst_cap out_len) = - 1
      \<longleftrightarrow> src = None \<or> dst = None \<or> out_len = None) \<and>
   (rc (wax_lz4_decompress L src src_len dst dst_len) = - 1 \<longleftrightarrow> src = None \<or> dst = None) \<and>
   (rc (wax_deflate_compress L src src_len dst lp) = - 1
      \<longleftrightarrow> src = None \<or> dst = None \<or> lp = None) \<and>
   (rc (wax_deflate_decompress L src src_len dst lp) = - 1
      \<longleftrightarrow> src = None \<or> dst = None \<or> lp = None)"
  by (simp add: shim_defs Let_def split: prod.splits)

text \<open>
  Claim C3, as the specification states it: for every call, a length above the limit makes
  the operation fail with \<open>SizeLimitExceeded\<close> (return code \<open>-2\<close>). The null check comes
  first in the code, so that a call with a null \<^verbatim>\<open>src\<close> and \<^verbatim>\<open>src_len = 0x80000000\<close>
  returns \<open>-1\<close>, not \<open>-2\<close>.
\<close>

theorem null_pointer_precedes_size_limit:
  "rc (wax_lz4_compress stored_libs None 0x80000000 (Some []) 0 (Some 0)) = - 1 \<and>
   rc (wax_lz4_compress stored_libs None 0x80000000 (Some []) 0 (Some 0)) \<noteq> - 2"
  by (simp add: wax_lz4_compress_def)

text \<open>
  Claim C3, amended: for every call whose pointer arguments are all non-null, an input
  length or an output capacity above \<^verbatim>\<open>INT32_MAX\<close> (the LZ4 operations) or above
  \<^verbatim>\<open>UINT32_MAX\<close> (the zlib operations) gives the return code \<open>-2\<close>, no library function is
  called and neither the output buffer nor the length object changes; lengths within the
  range never give \<open>-2\<close>.
\<close>

theorem size_limit_enforced:
  "(let r = wax_lz4_compress L (Some s) src_len (Some d) dst_cap (Some ol) in
      (src_len > INT32_MAX \<or> dst_cap > INT32_MAX \<longrightarrow>
         rc r = - 2 \<and> calls r = [] \<and> dst_mem r = Some d \<and> len_mem r = Some ol) \<and>
      (src_len \<le> INT32_MAX \<and> dst_cap \<le> INT32_MAX \<longrightarrow> rc r \<noteq> - 2)) \<and>
   (let r = wax_lz4_decompress L (Some s) src_len (Some d) dst_len in
      (src_len > INT32_MAX \<or> dst_len > INT32_MAX \<longrightarrow>
         rc r = - 2 \<and> calls r = [] \<and> dst_mem r = Some d) \<and>
      (src_len \<le> INT32_MAX \<and> dst_len \<le> INT32_MAX \<longrightarrow> rc r \<noteq> - 2)) \<and>
   (let r = wax_deflate_compress L (Some s) src_len (Some d) (Some cap) in
      (src_len > UINT32_MAX \<or> cap > UINT32_MAX \<longrightarrow>
         rc r = - 2 \<and> calls r = [] \<and> dst_mem r = Some d \<and> len_mem r = Some cap) \<and>
      (src_len \<le> UINT32_MAX \<and> cap \<le> UINT32_MAX \<longrightarrow> rc r \<noteq> - 2)) \<and>
   (let r = wax_deflate_decompress L (Some s) src_len (Some d) (Some cap) in
      (src_len > UINT32_MAX \<or> cap > UINT32_MAX \<longrightarrow>
         rc r = - 2 \<and> calls r = [] \<and> dst_mem r = Some d \<and> len_mem r = Some cap) \<and>
      (src_len \<le> UINT32_MAX \<and> cap \<le> UINT32_MAX \<longrightarrow> rc r \<noteq> - 2))"
proof (intro conjI)
  show "let r = wax_lz4_compress L (Some s) src_len (Some d) dst_cap (Some ol) in
      (src_len > INT32_MAX \<or> dst_cap > INT32_MAX \<longrightarrow>
         rc r = - 2 \<and> calls r = [] \<and> dst_mem r = Some d \<and> len_mem r = Some ol) \<and>
      (src_len \<le> INT32_MAX \<and> dst_cap \<le> INT32_MAX \<longrightarrow> rc r \<noteq> - 2)"
    by (auto simp add: wax_lz4_compress_def Let_def split: prod.splits)
  show "let r = wax_lz4_decompress L (Some s) src_len (Some d) dst_len in
      (src_len > INT32_MAX \<or> dst_len > INT32_MAX \<longrightarrow>
         rc r = - 2 \<and> calls r = [] \<and> dst_mem r = Some d) \<and>
      (src_len \<le> INT32_MAX \<and> dst_len \<le> INT32_MAX \<longrightarrow> rc r \<noteq> - 2)"
    by (auto simp add: wax_lz4_decompress_def Let_def split: prod.splits)
  show "let r = wax_deflate_compress L (Some s) src_len (Some d) (Some cap) in
      (src_len > UINT32_MAX \<or> cap > UINT32_MAX \<longrightarrow>
         rc r = - 2 \<and> calls r = [] \<and> dst_mem r = Some d \<and> len_mem r = Some cap) \<and>
      (src_len \<le> UINT32_MAX \<and> cap \<le> UINT32_MAX \<longrightarrow> rc r \<noteq> - 2)"
    by (auto simp add: wax_deflate_compress_def Let_def split: prod.splits)
  show "let r = wax_deflate_decompress L (Some s) src_len (Some d) (Some cap) in
      (src_len > UINT32_MAX \<or> cap > UINT32_MAX \<longrightarrow>
         rc r = - 2 \<and> calls r = [] \<and> dst_mem r = Some d \<and> len_mem r = Some cap) \<and>
      (src_len \<le> UINT32_MAX \<and> cap \<le> UINT32_MAX \<longrightarrow> rc r \<noteq> - 2)"
    by (auto simp add: wax_deflate_decompress_def Let_def split: prod.splits)
qed

theorem size_limit_enforced_witness:
  "(0x80000000 :: size_t) > INT32_MAX \<and>
   rc (wax_lz4_compress stored_libs (Some [1, 2, 3]) 0x80000000 (Some [0]) 1 (Some 7)) = - 2 \<and>
   calls (wax_lz4_compress stored_libs (Some [1, 2, 3]) 0x80000000 (Some [0]) 1 (Some 7)) = [] \<and>
   (0x100000000 :: size_t) > UINT32_MAX \<and>
   rc (wax_deflate_decompress stored_libs (Some [1, 2, 3]) 3 (Some [0]) (Some 0x100000000)) = - 2 \<and>
   (3 :: size_t) \<le> UINT32_MAX \<and> (4 :: size_t) \<le> UINT32_MAX \<and>
   rc (wax_deflate_compress stored_libs (Some [1, 2, 3]) 3 (Some [0, 0, 0, 0]) (Some 4)) \<noteq> - 2"
  using size_limit_enforced [where L = stored_libs and s = "[1, 2, 3]" and src_len = "0x80000000"
      and d = "[0]" and dst_cap = 1 and ol = 7 and dst_len = 1 and cap = 1]
    size_limit_enforced [where L = stored_libs and s = "[1, 2, 3]" and src_len = 3
      and d = "[0]" and dst_cap = 1 and ol = 7 and dst_len = 1 and cap = "0x100000000"]
    size_limit_enforced [where L = stored_libs and s = "[1, 2, 3]" and src_len = 3
      and d = "[0, 0, 0, 0]" and dst_cap = 1 and ol = 7 and dst_len = 1 and cap = 4]
  by (simp add: Let_def INT32_MAX_def UINT32_MAX_def)

section \<open>The length object on failure\<close>

text \<open>
  Claim C10: for the three operations that take a length pointer (\<^verbatim>\<open>out_len\<close> of
  \<^verbatim>\<open>wax_lz4_compress\<close>, \<^verbatim>\<open>inout_dst_len\<close> of \<^verbatim>\<open>wax_deflate_compress\<close> and of
  \<^verbatim>\<open>wax_deflate_decompress\<close>), a nonzero return code leaves the length object as the
  caller supplied it, for every library and every argument.
\<close>

theorem length_output_untouched_on_error:
  "(rc (wax_lz4_compress L src src_len dst dst_cap lp) \<noteq> 0 \<longrightarrow>
      len_mem (wax_lz4_compress L src src_len dst dst_cap lp) = lp) \<and>
   (rc (wax_deflate_compress L src src_len dst lp) \<noteq> 0 \<longrightarrow>
      len_mem (wax_deflate_compress L src src_len dst lp) = lp) \<and>
   (rc (wax_deflate_decompress L src src_len dst lp) \<noteq> 0 \<longrightarrow>
      len_mem (wax_deflate_decompress L src src_len dst lp) = lp)"
  by (simp add: shim_defs Let_def split: prod.splits)

theorem length_output_untouched_on_error_witness:
  "rc (wax_lz4_compress stored_libs (Some [1, 2, 3]) 3 (Some [0, 0]) 2 (Some 9)) \<noteq> 0 \<and>
   len_mem (wax_lz4_compress stored_libs (Some [1, 2, 3]) 3 (Some [0, 0]) 2 (Some 9)) = Some 9 \<and>
   rc (wax_deflate_compress stored_libs (Some [1, 2, 3]) 3 (Some [0, 0]) (Some 2)) \<noteq> 0 \<and>
   len_mem (wax_deflate_compress stored_libs (Some [1, 2, 3]) 3 (Some [0, 0]) (Some 2)) = Some 2 \<and>
   rc (wax_deflate_decompress stored_libs (Some [0, 1, 2, 3]) 4 (Some [0, 0]) (Some 2)) \<noteq> 0 \<and>
   len_mem (wax_deflate_decompress stored_libs (Some [0, 1, 2, 3]) 4 (Some [0, 0]) (Some 2)) = Some 2"
proof -
  have a: "rc (wax_lz4_compress stored_libs (Some [1, 2, 3]) 3 (Some [0, 0]) 2 (Some 9)) \<noteq> 0"
    by (simp add: wax_lz4_compress_def stored_defs INT32_MAX_def Let_def sless)
  have b: "rc (wax_deflate_compress stored_libs (Some [1, 2, 3]) 3 (Some [0, 0]) (Some 2)) \<noteq> 0"
    by (simp add: wax_deflate_compress_def stored_defs UINT32_MAX_def Let_def)
  have c: "rc (wax_deflate_decompress stored_libs (Some [0, 1, 2, 3]) 4 (Some [0, 0]) (Some 2)) \<noteq> 0"
    by (simp add: wax_deflate_decompress_def stored_defs UINT32_MAX_def Let_def)
  show ?thesis
    using a b c
      length_output_untouched_on_error [where L = stored_libs and src = "Some [1, 2, 3]" and src_len = 3
        and dst = "Some [0, 0]" and dst_cap = 2 and lp = "Some 9"]
      length_output_untouched_on_error [where L = stored_libs and src = "Some [1, 2, 3]" and src_len = 3
        and dst = "Some [0, 0]" and dst_cap = 2 and lp = "Some 2"]
      length_output_untouched_on_error [where L = stored_libs and src = "Some [0, 1, 2, 3]" and src_len = 4
        and dst = "Some [0, 0]" and dst_cap = 2 and lp = "Some 2"]
    by blast
qed

section \<open>The LZ4 operations\<close>

text \<open>
  Claim C4: when the declared output capacity is strictly less than the bound that
  \<^verbatim>\<open>wax_lz4_compress\<close> computes for the input length, the call returns \<open>-4\<close>
  (\<open>OutputTooSmall\<close>); the only library function called is \<^verbatim>\<open>LZ4_compressBound\<close>, and the
  output buffer and the length object are as the caller supplied them. The bound is
  computed once the null check and the size check have passed, hence the non-null pointers
  and the hypothesis on \<open>src_len\<close>; a capacity below a bound that is an \<^verbatim>\<open>int\<close> is within
  the size limit by itself. The witness is a capacity of 18 against a bound of 19.
\<close>

theorem fast_compress_rejects_small_capacity:
  assumes len: "src_len \<le> INT32_MAX"
    and small: "uint dst_cap < sint (LZ4_compressBound L (ucast src_len))"
  shows "wax_lz4_compress L (Some s) src_len (Some d) dst_cap (Some ol) =
    \<lparr>rc = - 4, dst_mem = Some d, calls = [Call_LZ4_compressBound (ucast src_len)],
     len_mem = Some ol\<rparr>"
proof -
  let ?b = "LZ4_compressBound L (ucast src_len)"
  have nn: "0 \<le> uint dst_cap" by simp
  have "0 < sint ?b" using small nn by linarith
  then have pos: "0 <s ?b" by (simp add: word_sless_alt)
  then have nle: "\<not> ?b \<le>s 0" by (simp add: sless)
  have "0 \<le>s ?b" using pos by (simp add: sless)
  then have u: "uint (scast ?b :: size_t) = sint ?b" by (rule scast_pos_uint)
  have gt: "dst_cap < scast ?b" using small by (simp add: word_less_def u)
  have "sint ?b < 2 ^ 31" using sint_lt [of ?b] by simp
  then have "uint dst_cap \<le> 0x7FFFFFFF" using small by simp
  then have cap: "dst_cap \<le> INT32_MAX" by (simp add: int32_max_uint)
  show ?thesis
    using len cap nle gt by (simp add: wax_lz4_compress_def Let_def not_less [symmetric])
qed

theorem fast_compress_rejects_small_capacity_witness:
  "(3 :: size_t) \<le> INT32_MAX \<and>
   uint (18 :: size_t) < sint (LZ4_compressBound stored_libs (ucast (3 :: size_t))) \<and>
   wax_lz4_compress stored_libs (Some [1, 2, 3]) 3 (Some [9, 9]) 18 (Some 5) =
    \<lparr>rc = - 4, dst_mem = Some [9, 9], calls = [Call_LZ4_compressBound 3], len_mem = Some 5\<rparr>"
proof -
  have a: "(3 :: size_t) \<le> INT32_MAX" by (simp add: INT32_MAX_def)
  have b: "uint (18 :: size_t) < sint (LZ4_compressBound stored_libs (ucast (3 :: size_t)))"
    by (simp add: stored_defs)
  show ?thesis
    using a b fast_compress_rejects_small_capacity [OF a b, of "[1, 2, 3]" "[9, 9]" 5] by simp
qed

text \<open>
  Claim C6: once the checks of \<^verbatim>\<open>wax_lz4_compress\<close> have passed, a count of zero or less
  from \<^verbatim>\<open>LZ4_compress_default\<close> gives the return code \<open>-5\<close> (\<open>CompressionFailed\<close>), and a
  positive count gives the return code \<open>0\<close> with exactly that count stored in the length
  object.
\<close>

theorem fast_compress_transform_outcome:
  assumes "src_len \<le> INT32_MAX" and "dst_cap \<le> INT32_MAX"
    and "0 <s LZ4_compressBound L (ucast src_len)"
    and "(scast (LZ4_compressBound L (ucast src_len)) :: size_t) \<le> dst_cap"
    and "LZ4_compress_default L s d (ucast src_len) (ucast dst_cap) = (written, d')"
  shows "(written \<le>s 0 \<longrightarrow>
            rc (wax_lz4_compress L (Some s) src_len (Some d) dst_cap (Some ol)) = - 5) \<and>
         (0 <s written \<longrightarrow>
            rc (wax_lz4_compress L (Some s) src_len (Some d) dst_cap (Some ol)) = 0 \<and>
            len_mem (wax_lz4_compress L (Some s) src_len (Some d) dst_cap (Some ol))
              = Some (scast written) \<and>
            uint (scast written :: size_t) = sint written)"
proof -
  have nle: "\<not> LZ4_compressBound L (ucast src_len) \<le>s 0"
    using assms(3) by (simp add: sless)
  have u: "uint (scast written :: size_t) = sint written" if "0 <s written"
    using that by (intro scast_pos_uint) (simp add: sless)
  have w: "\<not> written \<le>s 0" if "0 <s written"
    using that by (simp add: sless)
  show ?thesis
    using assms(1,2,4,5) nle u w
    by (simp add: wax_lz4_compress_def Let_def not_less [symmetric])
qed

theorem fast_compress_transform_outcome_witness:
  "(3 :: size_t) \<le> INT32_MAX \<and> (19 :: size_t) \<le> INT32_MAX \<and>
   0 <s LZ4_compressBound stored_libs (ucast (3 :: size_t)) \<and>
   (scast (LZ4_compressBound stored_libs (ucast (3 :: size_t))) :: size_t) \<le> 19 \<and>
   LZ4_compress_default stored_libs [1, 2, 3] [0, 0, 0, 0, 0, 0, 0, 0, 0, 0, 0, 0, 0, 0, 0, 0, 0, 0, 0] (ucast (3 :: size_t)) (ucast (19 :: size_t))
     = (4, [0, 1, 2, 3, 0, 0, 0, 0, 0, 0, 0, 0, 0, 0, 0, 0, 0, 0, 0]) \<and>
   rc (wax_lz4_compress stored_libs (Some [1, 2, 3]) 3 (Some [0, 0, 0, 0, 0, 0, 0, 0, 0, 0, 0, 0, 0, 0, 0, 0, 0, 0, 0]) 19 (Some 0)) = 0 \<and>
   len_mem (wax_lz4_compress stored_libs (Some [1, 2, 3]) 3 (Some [0, 0, 0, 0, 0, 0, 0, 0, 0, 0, 0, 0, 0, 0, 0, 0, 0, 0, 0]) 19 (Some 0)) = Some 4"
proof -
  have a: "(3 :: size_t) \<le> INT32_MAX" and b: "(19 :: size_t) \<le> INT32_MAX"
    by (simp_all add: INT32_MAX_def)
  have c: "0 <s LZ4_compressBound stored_libs (ucast (3 :: size_t))"
    by (simp add: stored_defs sless)
  have d: "(scast (LZ4_compressBound stored_libs (ucast (3 :: size_t))) :: size_t) \<le> 19"
    by (simp add: stored_defs)
  have e: "LZ4_compress_default stored_libs [1, 2, 3] [0, 0, 0, 0, 0, 0, 0, 0, 0, 0, 0, 0, 0, 0, 0, 0, 0, 0, 0]
      (ucast (3 :: size_t)) (ucast (19 :: size_t)) = (4, [0, 1, 2, 3, 0, 0, 0, 0, 0, 0, 0, 0, 0, 0, 0, 0, 0, 0, 0])"
    by (simp add: stored_defs sless)
  have f: "0 <s (4 :: int32)" by (simp add: sless)
  show ?thesis
    using a b c d e f fast_compress_transform_outcome [OF a b c d e, of 0] by simp
qed

text \<open>
  Claim C5: once the checks of \<^verbatim>\<open>wax_lz4_decompress\<close> have passed, a negative count from
  \<^verbatim>\<open>LZ4_decompress_safe\<close> gives \<open>-3\<close> (\<open>DecompressionFailed\<close>), a non-negative count
  different from \<open>dst_len\<close> gives \<open>-4\<close> (\<open>LengthMismatch\<close>), and the call returns \<open>0\<close>
  exactly when the count equals \<open>dst_len\<close>. The last conjunct is the case of an expected
  length one less than the true one: if the block decodes to \<open>dst_len + 1\<close> bytes when the
  buffer has room for them, and the library reports an error for a destination that is too
  small (\<open>lz4_rejects_small_dst\<close>, the documented behaviour of \<^verbatim>\<open>LZ4_decompress_safe\<close>), the
  call fails with \<open>-3\<close>.
\<close>

theorem fast_decompress_error_taxonomy:
  assumes sl: "src_len \<le> INT32_MAX" and dl: "dst_len \<le> INT32_MAX"
    and call: "LZ4_decompress_safe L s d (ucast src_len) (ucast dst_len) = (written, d')"
  shows "(sint written < 0 \<longrightarrow>
            rc (wax_lz4_decompress L (Some s) src_len (Some d) dst_len) = - 3) \<and>
         (0 \<le> sint written \<and> sint written \<noteq> uint dst_len \<longrightarrow>
            rc (wax_lz4_decompress L (Some s) src_len (Some d) dst_len) = - 4) \<and>
         (rc (wax_lz4_decompress L (Some s) src_len (Some d) dst_len) = 0
            \<longleftrightarrow> sint written = uint dst_len) \<and>
         (lz4_rejects_small_dst L \<and> dst_len < INT32_MAX \<and>
          fst (LZ4_decompress_safe L s e (ucast src_len) (ucast (dst_len + 1)))
            = ucast (dst_len + 1) \<longrightarrow>
            rc (wax_lz4_decompress L (Some s) src_len (Some d) dst_len) = - 3)"
proof -
  let ?r = "wax_lz4_decompress L (Some s) src_len (Some d) dst_len"
  have nn: "0 \<le> uint dst_len" by simp
  have r: "?r = (if written <s 0 then \<lparr>rc = - 3, dst_mem = Some d', calls = [Call_LZ4_decompress_safe (ucast src_len) (ucast dst_len)]\<rparr>
      else if (scast written :: size_t) \<noteq> dst_len
        then \<lparr>rc = - 4, dst_mem = Some d', calls = [Call_LZ4_decompress_safe (ucast src_len) (ucast dst_len)]\<rparr>
        else \<lparr>rc = 0, dst_mem = Some d', calls = [Call_LZ4_decompress_safe (ucast src_len) (ucast dst_len)]\<rparr>)"
    using sl dl call by (simp add: wax_lz4_decompress_def Let_def not_less [symmetric])
  have neg: "rc ?r = - 3" if "sint written < 0"
    using that by (simp add: r word_sless_alt)
  have mis: "rc ?r = - 4" if "0 \<le> sint written" and "sint written \<noteq> uint dst_len"
  proof -
    have p: "0 \<le>s written" using that(1) by (simp add: word_sle_eq)
    have "\<not> written <s 0" using that(1) by (simp add: word_sless_alt)
    then show ?thesis using that(2) by (simp add: r scast_eq_iff [OF p])
  qed
  have ok: "rc ?r = 0" if "sint written = uint dst_len"
  proof -
    have p: "0 \<le>s written" using that nn by (simp add: word_sle_eq)
    have "\<not> written <s 0" using that nn by (simp add: word_sless_alt)
    then show ?thesis using that by (simp add: r scast_eq_iff [OF p])
  qed
  have iff: "rc ?r = 0 \<longleftrightarrow> sint written = uint dst_len"
  proof
    assume z: "rc ?r = 0"
    show "sint written = uint dst_len"
    proof (rule ccontr)
      assume ne: "sint written \<noteq> uint dst_len"
      show False
      proof (cases "sint written < 0")
        case True
        then show False using neg z by simp
      next
        case False
        then have "rc ?r = - 4" using mis ne by simp
        then show False using z by simp
      qed
    qed
  qed (rule ok)
  have short: "rc ?r = - 3"
    if c: "lz4_rejects_small_dst L" and lt: "dst_len < INT32_MAX"
      and full: "fst (LZ4_decompress_safe L s e (ucast src_len) (ucast (dst_len + 1)))
        = ucast (dst_len + 1)"
  proof -
    have u: "uint dst_len < 0x7FFFFFFF" using lt by (simp add: INT32_MAX_def word_less_def)
    have "uint (dst_len + 1) = (uint dst_len + 1) mod 2 ^ 64"
      by (simp add: uint_word_ariths)
    also have "\<dots> = uint dst_len + 1" using u nn by (intro mod_pos_pos_trivial) auto
    finally have u1: "uint (dst_len + 1) = uint dst_len + 1" .
    then have le1: "dst_len + 1 \<le> INT32_MAX" using u by (simp add: int32_max_uint)
    have s1: "sint (ucast (dst_len + 1) :: int32) = uint dst_len + 1"
      using ucast_small(2) [OF le1] u1 by simp
    have s0: "sint (ucast dst_len :: int32) = uint dst_len"
      using ucast_small(2) [OF dl] .
    have a: "0 \<le>s (ucast dst_len :: int32)" using ucast_small(5) [OF dl] .
    have b: "(ucast dst_len :: int32) <s ucast (dst_len + 1)"
      using s0 s1 by (simp add: word_sless_alt)
    have "fst (LZ4_decompress_safe L s d (ucast src_len) (ucast dst_len)) <s 0"
      using c full a b unfolding lz4_rejects_small_dst_def by blast
    then have "sint written < 0" using call by (simp add: word_sless_alt)
    then show ?thesis by (rule neg)
  qed
  show ?thesis using neg mis iff short by blast
qed

theorem fast_decompress_error_taxonomy_witness:
  "(4 :: size_t) \<le> INT32_MAX \<and> (2 :: size_t) \<le> INT32_MAX \<and> (2 :: size_t) < INT32_MAX \<and>
   lz4_rejects_small_dst stored_libs \<and>
   fst (LZ4_decompress_safe stored_libs [0, 1, 2, 3] [9, 9, 9] (ucast (4 :: size_t))
     (ucast ((2 :: size_t) + 1))) = ucast ((2 :: size_t) + 1) \<and>
   rc (wax_lz4_decompress stored_libs (Some [0, 1, 2, 3]) 4 (Some [9, 9]) 2) = - 3 \<and>
   rc (wax_lz4_decompress stored_libs (Some [0, 1, 2, 3]) 4 (Some [9, 9, 9]) 3) = 0"
proof -
  have a: "(4 :: size_t) \<le> INT32_MAX" and b: "(2 :: size_t) \<le> INT32_MAX"
    and b': "(2 :: size_t) < INT32_MAX" and b3: "(3 :: size_t) \<le> INT32_MAX"
    by (simp_all add: INT32_MAX_def)
  have c: "LZ4_decompress_safe stored_libs [0, 1, 2, 3] [9, 9] (ucast (4 :: size_t))
      (ucast (2 :: size_t)) = (- 1, [9, 9])"
    by (simp add: stored_defs sless)
  have c3: "LZ4_decompress_safe stored_libs [0, 1, 2, 3] [9, 9, 9] (ucast (4 :: size_t))
      (ucast (3 :: size_t)) = (3, [1, 2, 3])"
    by (simp add: stored_defs sless)
  have f: "fst (LZ4_decompress_safe stored_libs [0, 1, 2, 3] [9, 9, 9] (ucast (4 :: size_t))
     (ucast ((2 :: size_t) + 1))) = ucast ((2 :: size_t) + 1)"
    using c3 by simp
  show ?thesis
    using a b b' f stored_rejects_small_dst
      fast_decompress_error_taxonomy [OF a b c, of "[9, 9, 9]"] fast_decompress_error_taxonomy [OF a b3 c3, of "[9, 9, 9]"]
    by simp
qed

section \<open>The zlib operations\<close>

text \<open>
  Claim C7: \<^verbatim>\<open>wax_deflate_compress\<close> passes the value of \<^verbatim>\<open>*inout_dst_len\<close> to
  \<^verbatim>\<open>compress2\<close> as the capacity, stores on success the length that \<^verbatim>\<open>compress2\<close> left in
  \<^verbatim>\<open>out_len\<close> into the length object, and every call of \<^verbatim>\<open>compress2\<close> it makes has the
  level \<^verbatim>\<open>Z_DEFAULT_COMPRESSION\<close>; the operation has no level argument.
\<close>

theorem deflate_compress_inout_contract:
  "(\<forall>c \<in> set (calls (wax_deflate_compress L src src_len dst lp)).
      \<forall>a b lvl. c = Call_compress2 a b lvl \<longrightarrow> lvl = Z_DEFAULT_COMPRESSION L) \<and>
   (src_len \<le> UINT32_MAX \<and> cap \<le> UINT32_MAX \<and>
    compress2 L d cap s src_len (Z_DEFAULT_COMPRESSION L) = (zrc, d', out_len) \<longrightarrow>
      calls (wax_deflate_compress L (Some s) src_len (Some d) (Some cap))
        = [Call_compress2 cap src_len (Z_DEFAULT_COMPRESSION L)] \<and>
      (zrc = Z_OK L \<longrightarrow>
         wax_deflate_compress L (Some s) src_len (Some d) (Some cap)
           = \<lparr>rc = 0, dst_mem = Some d',
              calls = [Call_compress2 cap src_len (Z_DEFAULT_COMPRESSION L)],
              len_mem = Some out_len\<rparr>))"
proof (intro conjI)
  show "\<forall>c \<in> set (calls (wax_deflate_compress L src src_len dst lp)).
      \<forall>a b lvl. c = Call_compress2 a b lvl \<longrightarrow> lvl = Z_DEFAULT_COMPRESSION L"
    using deflate_compress_calls [of L src src_len dst lp] by auto
  show "src_len \<le> UINT32_MAX \<and> cap \<le> UINT32_MAX \<and>
    compress2 L d cap s src_len (Z_DEFAULT_COMPRESSION L) = (zrc, d', out_len) \<longrightarrow>
      calls (wax_deflate_compress L (Some s) src_len (Some d) (Some cap))
        = [Call_compress2 cap src_len (Z_DEFAULT_COMPRESSION L)] \<and>
      (zrc = Z_OK L \<longrightarrow>
         wax_deflate_compress L (Some s) src_len (Some d) (Some cap)
           = \<lparr>rc = 0, dst_mem = Some d',
              calls = [Call_compress2 cap src_len (Z_DEFAULT_COMPRESSION L)],
              len_mem = Some out_len\<rparr>)"
    by (simp add: wax_deflate_compress_def Let_def not_less [symmetric])
qed

theorem deflate_compress_inout_contract_witness:
  "(3 :: size_t) \<le> UINT32_MAX \<and> (8 :: size_t) \<le> UINT32_MAX \<and>
   compress2 stored_libs [9, 9, 9, 9, 9, 9, 9, 9] 8 [1, 2, 3] 3 (Z_DEFAULT_COMPRESSION stored_libs)
     = (Z_OK stored_libs, [0, 1, 2, 3, 9, 9, 9, 9], 4) \<and>
   wax_deflate_compress stored_libs (Some [1, 2, 3]) 3 (Some [9, 9, 9, 9, 9, 9, 9, 9]) (Some 8)
     = \<lparr>rc = 0, dst_mem = Some [0, 1, 2, 3, 9, 9, 9, 9],
        calls = [Call_compress2 8 3 (- 1)], len_mem = Some 4\<rparr> \<and>
   Z_DEFAULT_COMPRESSION stored_libs = - 1"
proof -
  have a: "(3 :: size_t) \<le> UINT32_MAX" and b: "(8 :: size_t) \<le> UINT32_MAX"
    by (simp_all add: UINT32_MAX_def)
  have c: "compress2 stored_libs [9, 9, 9, 9, 9, 9, 9, 9] 8 [1, 2, 3] 3
      (Z_DEFAULT_COMPRESSION stored_libs) = (Z_OK stored_libs, [0, 1, 2, 3, 9, 9, 9, 9], 4)"
    by (simp add: stored_defs)
  have l: "Z_DEFAULT_COMPRESSION stored_libs = - 1" by (simp add: stored_libs_def)
  show ?thesis
    using a b c
      deflate_compress_inout_contract [where L = stored_libs and src = "Some [1, 2, 3]" and src_len = 3
        and dst = "Some [9, 9, 9, 9, 9, 9, 9, 9]" and lp = "Some 8" and cap = 8
        and d = "[9, 9, 9, 9, 9, 9, 9, 9]" and s = "[1, 2, 3]" and zrc = "Z_OK stored_libs"
        and d' = "[0, 1, 2, 3, 9, 9, 9, 9]" and out_len = 4]
      l
    unfolding l by blast
qed

text \<open>
  Claim C8: once the null check and the size check have passed, \<^verbatim>\<open>wax_deflate_compress\<close>
  and \<^verbatim>\<open>wax_deflate_decompress\<close> return \<open>0\<close> exactly when the library function returns
  \<^verbatim>\<open>Z_OK\<close>, and \<open>-3\<close> for every other status, whichever it is.
\<close>

theorem deflate_status_collapse:
  assumes "src_len \<le> UINT32_MAX" and "cap \<le> UINT32_MAX"
  shows "(rc (wax_deflate_compress L (Some s) src_len (Some d) (Some cap)) = 0
            \<longleftrightarrow> fst (compress2 L d cap s src_len (Z_DEFAULT_COMPRESSION L)) = Z_OK L) \<and>
         (fst (compress2 L d cap s src_len (Z_DEFAULT_COMPRESSION L)) \<noteq> Z_OK L \<longrightarrow>
            rc (wax_deflate_compress L (Some s) src_len (Some d) (Some cap)) = - 3) \<and>
         (rc (wax_deflate_decompress L (Some s) src_len (Some d) (Some cap)) = 0
            \<longleftrightarrow> fst (uncompress L d cap s src_len) = Z_OK L) \<and>
         (fst (uncompress L d cap s src_len) \<noteq> Z_OK L \<longrightarrow>
            rc (wax_deflate_decompress L (Some s) src_len (Some d) (Some cap)) = - 3)"
  using assms
  by (simp add: wax_deflate_compress_def wax_deflate_decompress_def Let_def
      not_less [symmetric] split: prod.splits)

theorem deflate_status_collapse_witness:
  "(3 :: size_t) \<le> UINT32_MAX \<and> (2 :: size_t) \<le> UINT32_MAX \<and>
   fst (compress2 stored_libs [9, 9] 2 [1, 2, 3] 3 (Z_DEFAULT_COMPRESSION stored_libs)) = - 5 \<and>
   rc (wax_deflate_compress stored_libs (Some [1, 2, 3]) 3 (Some [9, 9]) (Some 2)) = - 3 \<and>
   fst (uncompress stored_libs [9, 9] 2 [1, 2, 3] 3) = - 3 \<and>
   rc (wax_deflate_decompress stored_libs (Some [1, 2, 3]) 3 (Some [9, 9]) (Some 2)) = - 3"
proof -
  have a: "(3 :: size_t) \<le> UINT32_MAX" and b: "(2 :: size_t) \<le> UINT32_MAX"
    by (simp_all add: UINT32_MAX_def)
  have c: "fst (compress2 stored_libs [9, 9] 2 [1, 2, 3] 3 (Z_DEFAULT_COMPRESSION stored_libs)) = - 5"
    and d: "fst (uncompress stored_libs [9, 9] 2 [1, 2, 3] 3) = - 3"
    and z: "Z_OK stored_libs = 0"
    by (simp_all add: stored_defs)
  show ?thesis
    using a b c d z deflate_status_collapse [OF a b, of stored_libs "[1, 2, 3]" "[9, 9]"] by simp
qed

section \<open>Round trips\<close>

text \<open>
  Claim C1: for every byte sequence \<open>b\<close>, decompressing what compression wrote gives \<open>b\<close>
  again, for LZ4 with the expected length \<open>length b\<close> and for zlib, when the output buffers
  have the right sizes: for LZ4 a capacity of at least the positive bound and at most
  \<^verbatim>\<open>INT32_MAX\<close> and a destination of at least \<open>length b\<close> bytes, for zlib capacities of at
  least \<open>zbound\<close> of the length and at least the length, at most \<^verbatim>\<open>UINT32_MAX\<close>. The
  libraries are any pair that is lossless in the sense of \<open>lz4_lossless\<close> and
  \<open>zlib_lossless\<close>; all pointers are non-null, also for an empty \<open>b\<close>.
\<close>

theorem round_trip:
  assumes "lz4_lossless L" and "zlib_lossless L zbound"
  shows "(length b \<le> 0x7FFFFFFF \<and> 0 <s LZ4_compressBound L (of_nat (length b)) \<and>
          (scast (LZ4_compressBound L (of_nat (length b))) :: size_t) \<le> cap \<and>
          cap \<le> INT32_MAX \<and> unat cap \<le> length d \<and> length b \<le> length e \<longrightarrow>
            fast_round_trip L b d cap e = Some b) \<and>
         (length b \<le> 0xFFFFFFFF \<and> zbound (of_nat (length b)) \<le> zcap \<and>
          zcap \<le> UINT32_MAX \<and> unat zcap \<le> length zd \<and>
          of_nat (length b) \<le> zcap_out \<and> zcap_out \<le> UINT32_MAX \<and> unat zcap_out \<le> length ze \<longrightarrow>
            deflate_round_trip L b zd zcap ze zcap_out = Some b)"
  using fast_round_trip_lossless(2) [OF assms(1)] deflate_round_trip_lossless(2) [OF assms(2)]
  by blast

theorem round_trip_witness:
  "lz4_lossless stored_libs \<and> zlib_lossless stored_libs stored_zbound \<and>
   fast_round_trip stored_libs [1, 2, 3]
     [0, 0, 0, 0, 0, 0, 0, 0, 0, 0, 0, 0, 0, 0, 0, 0, 0, 0, 0] 19 [9, 9, 9] = Some [1, 2, 3] \<and>
   deflate_round_trip stored_libs [1, 2, 3] [9, 9, 9, 9] 4 [9, 9, 9] 3 = Some [1, 2, 3]"
proof -
  let ?b = "[1, 2, 3] :: byte list"
  let ?d = "[0, 0, 0, 0, 0, 0, 0, 0, 0, 0, 0, 0, 0, 0, 0, 0, 0, 0, 0] :: byte list"
  have n: "length ?b = 3" by simp
  have p: "length ?b \<le> 0x7FFFFFFF \<and> 0 <s LZ4_compressBound stored_libs (of_nat (length ?b)) \<and>
      (scast (LZ4_compressBound stored_libs (of_nat (length ?b))) :: size_t) \<le> 19 \<and>
      (19 :: size_t) \<le> INT32_MAX \<and> unat (19 :: size_t) \<le> length ?d \<and>
      length ?b \<le> length [9 :: byte, 9, 9]"
    unfolding n by (simp add: stored_defs sless INT32_MAX_def)
  have q: "length ?b \<le> 0xFFFFFFFF \<and> stored_zbound (of_nat (length ?b)) \<le> 4 \<and>
      (4 :: size_t) \<le> UINT32_MAX \<and> unat (4 :: size_t) \<le> length [9 :: byte, 9, 9, 9] \<and>
      of_nat (length ?b) \<le> (3 :: size_t) \<and> (3 :: size_t) \<le> UINT32_MAX \<and>
      unat (3 :: size_t) \<le> length [9 :: byte, 9, 9]"
    unfolding n by (simp add: stored_zbound_def UINT32_MAX_def)
  note t = round_trip [OF stored_lz4_lossless stored_zlib_lossless,
      where b = ?b and cap = 19 and d = ?d and e = "[9, 9, 9]" and zcap = 4
        and zd = "[9, 9, 9, 9]" and zcap_out = 3 and ze = "[9, 9, 9]"]
  show ?thesis
    using stored_lz4_lossless stored_zlib_lossless p q t by blast
qed

text \<open>
  Claim C9, as the specification states it: compressing a zero-length input succeeds under
  both codec families when the capacity is sufficient. The specification admits a
  zero-length input handed over as a null pointer (\<open>input\<close> non-null unless
  \<open>inputLength == 0\<close>), and the code rejects it: with a null \<^verbatim>\<open>src\<close>, \<^verbatim>\<open>src_len = 0\<close> and
  an output buffer of sufficient capacity (16 bytes for the LZ4 bound of 16, 1 byte for the
  zlib instance), \<^verbatim>\<open>wax_lz4_compress\<close> and \<^verbatim>\<open>wax_deflate_compress\<close> both return \<open>-1\<close>.
\<close>

theorem null_empty_input_not_compressed:
  "rc (wax_lz4_compress stored_libs None 0
     (Some [9, 9, 9, 9, 9, 9, 9, 9, 9, 9, 9, 9, 9, 9, 9, 9]) 16 (Some 7)) = - 1 \<and>
   rc (wax_lz4_compress stored_libs None 0
     (Some [9, 9, 9, 9, 9, 9, 9, 9, 9, 9, 9, 9, 9, 9, 9, 9]) 16 (Some 7)) \<noteq> 0 \<and>
   rc (wax_deflate_compress stored_libs None 0 (Some [9]) (Some 1)) = - 1 \<and>
   rc (wax_deflate_compress stored_libs None 0 (Some [9]) (Some 1)) \<noteq> 0"
  by (simp add: wax_lz4_compress_def wax_deflate_compress_def)

text \<open>
  Claim C9, amended: compressing a zero-length input that is handed over through non-null
  pointers succeeds with both libraries when the capacity is sufficient, and decompressing
  the bytes written, again through non-null pointers, with the expected length 0 (LZ4) or
  the capacity 0 (zlib), succeeds and gives no bytes. The libraries are as in C1; the
  pointers are non-null although no byte of input is read through them.
\<close>

theorem empty_input_round_trip:
  assumes "lz4_lossless L" and "zlib_lossless L zbound"
    and "0 <s LZ4_compressBound L 0"
    and "(scast (LZ4_compressBound L 0) :: size_t) \<le> cap"
    and "cap \<le> INT32_MAX" and "unat cap \<le> length d"
    and "zbound 0 \<le> zcap" and "zcap \<le> UINT32_MAX" and "unat zcap \<le> length zd"
  shows "rc (wax_lz4_compress L (Some []) 0 (Some d) cap (Some ol)) = 0 \<and>
         fast_round_trip L [] d cap e = Some [] \<and>
         rc (wax_deflate_compress L (Some []) 0 (Some zd) (Some zcap)) = 0 \<and>
         deflate_round_trip L [] zd zcap ze 0 = Some []"
proof -
  have a: "rc (wax_lz4_compress L (Some []) 0 (Some d) cap (Some ol)) = 0"
    using fast_round_trip_lossless(1)
      [where L = L and b = "[]" and cap = cap and d = d and e = e and ol = ol]
      assms(1,3,4,5,6) by simp
  have b: "fast_round_trip L [] d cap e = Some []"
    using fast_round_trip_lossless(2)
      [where L = L and b = "[]" and cap = cap and d = d and e = e]
      assms(1,3,4,5,6) by simp
  have c: "rc (wax_deflate_compress L (Some []) 0 (Some zd) (Some zcap)) = 0"
    using deflate_round_trip_lossless(1)
      [where L = L and zbound = zbound and b = "[]" and cap = zcap and d = zd]
      assms(2,7,8,9) by (simp add: UINT32_MAX_def)
  have d: "deflate_round_trip L [] zd zcap ze 0 = Some []"
    using deflate_round_trip_lossless(2)
      [where L = L and zbound = zbound and b = "[]" and cap = zcap and d = zd
        and cap_out = 0 and e = ze]
      assms(2,7,8,9) by (simp add: UINT32_MAX_def)
  show ?thesis using a b c d by simp
qed

theorem empty_input_round_trip_witness:
  "lz4_lossless stored_libs \<and> zlib_lossless stored_libs stored_zbound \<and>
   rc (wax_lz4_compress stored_libs (Some [])  0
     (Some [9, 9, 9, 9, 9, 9, 9, 9, 9, 9, 9, 9, 9, 9, 9, 9]) 16 (Some 7)) = 0 \<and>
   fast_round_trip stored_libs [] [9, 9, 9, 9, 9, 9, 9, 9, 9, 9, 9, 9, 9, 9, 9, 9] 16 []
     = Some [] \<and>
   rc (wax_deflate_compress stored_libs (Some []) 0 (Some [9]) (Some 1)) = 0 \<and>
   deflate_round_trip stored_libs [] [9] 1 [] 0 = Some []"
proof -
  let ?d = "[9, 9, 9, 9, 9, 9, 9, 9, 9, 9, 9, 9, 9, 9, 9, 9] :: byte list"
  have a: "0 <s LZ4_compressBound stored_libs 0"
    and b: "(scast (LZ4_compressBound stored_libs 0) :: size_t) \<le> 16"
    and c: "(16 :: size_t) \<le> INT32_MAX" and d: "unat (16 :: size_t) \<le> length ?d"
    by (simp_all add: stored_defs sless INT32_MAX_def)
  have e: "stored_zbound 0 \<le> 1" and f: "(1 :: size_t) \<le> UINT32_MAX"
    and g: "unat (1 :: size_t) \<le> length [9 :: byte]"
    by (simp_all add: stored_zbound_def UINT32_MAX_def)
  show ?thesis
    using stored_lz4_lossless stored_zlib_lossless
      empty_input_round_trip [OF stored_lz4_lossless stored_zlib_lossless a b c d e f g,
        where ol = 7 and e = "[]" and ze = "[]"]
    by blast
qed

end
